theory Spec2Isabelle
  imports Main "HOL-Library.Word"
begin

section \<open>Data model\<close>

text \<open>
  The values the two source files handle: TensorFlow's \<open>Status\<close>, \<open>AttrValue\<close>,
  \<open>NodeDef\<close>, \<open>GraphDef\<close>, \<open>Graph\<close> and \<open>GrapplerItem\<close>, and the optimizer object with
  its configuration map. Only the fields the source reads or writes are kept.
\<close>

text \<open>A \<open>tensorflow::Status\<close>: \<open>OK\<close>, or an error with a code and a message.\<close>

datatype error_code =
    CANCELLED | UNKNOWN | INVALID_ARGUMENT | DEADLINE_EXCEEDED | NOT_FOUND
  | ALREADY_EXISTS | PERMISSION_DENIED | UNAUTHENTICATED | RESOURCE_EXHAUSTED
  | FAILED_PRECONDITION | ABORTED | OUT_OF_RANGE | UNIMPLEMENTED | INTERNAL
  | UNAVAILABLE | DATA_LOSS

datatype Status = OK | Error error_code string

fun ok :: "Status \<Rightarrow> bool" where
  "ok OK = True"
| "ok (Error c m) = False"

fun error_message :: "Status \<Rightarrow> string" where
  "error_message OK = []"
| "error_message (Error c m) = m"

text \<open>
  An \<open>AttrValue\<close> is a tagged union; \<open>s()\<close> reads the string member and is the empty
  string for every other kind.
\<close>

datatype AttrValue = AttrS string | AttrI int | AttrB bool | AttrList "string list"

fun s :: "AttrValue \<Rightarrow> string" where
  "s (AttrS x) = x"
| "s (AttrI i) = []"
| "s (AttrB b) = []"
| "s (AttrList xs) = []"

record NodeDef =
  name :: string
  op :: string
  input :: "string list"
  attr :: "string \<rightharpoonup> AttrValue"

record GraphDef =
  node :: "NodeDef list"

text \<open>
  The in-memory \<open>Graph\<close>. A \<open>Node\<close> wraps a \<open>NodeDef\<close>: \<open>name()\<close> and \<open>type_string()\<close> read
  its \<open>name\<close> and \<open>op\<close>, \<open>AddAttr\<close> writes its \<open>attr\<close> map. A \<open>Node*\<close> is the position
  of the node in \<open>nodes\<close>.
\<close>

record Graph =
  nodes :: "NodeDef list"

record GrapplerItem =
  item_id :: string
  graph :: GraphDef
  feed :: "(string \<times> int list) list"
  fetch :: "string list"
  keep_ops :: "string list"
  init_ops :: "string list"

text \<open>
  \<open>RewriterConfig_CustomGraphOptimizer\<close>: \<open>parameter_map\<close> is a protobuf map, given here
  as the sequence of entries the range-for loop of \<open>Init\<close> visits.
\<close>

record RewriterConfig_CustomGraphOptimizer =
  optimizer_name :: string
  parameter_map :: "(string \<times> AttrValue) list"

record OVTFOptimizer =
  m_config_map :: "string \<rightharpoonup> string"

section \<open>Init\<close>

text \<open>
  \<^verbatim>\<open>for (auto i : params) m_config_map["_ovtf_" + i.first] = i.second.s();\<close>
  \<^verbatim>\<open>return Status::OK();\<close>
\<close>

fun Init_loop :: "(string \<rightharpoonup> string) \<Rightarrow> (string \<times> AttrValue) list \<Rightarrow> (string \<rightharpoonup> string)" where
  "Init_loop m [] = m"
| "Init_loop m (i # params) = Init_loop (m(''_ovtf_'' @ fst i \<mapsto> s (snd i))) params"

definition Init :: "OVTFOptimizer \<Rightarrow> RewriterConfig_CustomGraphOptimizer \<Rightarrow> Status \<times> OVTFOptimizer" where
  "Init this config =
     (let params = parameter_map config
      in (OK, this\<lparr>m_config_map := Init_loop (m_config_map this) params\<rparr>))"

section \<open>FreshIndex\<close>

text \<open>
  \<^verbatim>\<open>mutex_lock l(s_serial_counter_mutex); return s_serial_counter++;\<close>
  The lock makes each call atomic, so successive calls are a sequence of steps on the
  counter. The counter is a C++ \<open>int\<close>: a 32-bit word read as two's complement, whose
  increment wraps.
\<close>

definition FreshIndex :: "32 word \<Rightarrow> int \<times> 32 word" where
  "FreshIndex s_serial_counter = (sint s_serial_counter, s_serial_counter + 1)"


section \<open>Optimize\<close>

subsection \<open>Fetch-node names\<close>

text \<open>
  \<^verbatim>\<open>int pos = f.find(":"); fetch_nodes.insert(f.substr(0, pos));\<close>
  \<open>find\<close> returns a \<open>size_t\<close>: the index of the first \<open>':'\<close>, or \<open>npos\<close> (all bits set)
  when there is none. The result is narrowed to an \<open>int\<close> and widened again, with sign
  extension, where \<open>substr\<close> takes its \<open>size_t\<close> count. \<open>substr(pos, n)\<close> throws only
  when \<open>pos\<close> exceeds the size, which position 0 never does; it yields at most \<open>n\<close>
  characters.
\<close>

fun find_first :: "char \<Rightarrow> string \<Rightarrow> nat option" where
  "find_first c [] = None"
| "find_first c (x # xs) = (if x = c then Some 0 else map_option Suc (find_first c xs))"

definition npos :: "64 word" where
  "npos = - 1"

definition string_find :: "string \<Rightarrow> char \<Rightarrow> 64 word" where
  "string_find f c = (case find_first c f of None \<Rightarrow> npos | Some i \<Rightarrow> of_nat i)"

definition substr :: "string \<Rightarrow> 64 word \<Rightarrow> 64 word \<Rightarrow> string" where
  "substr f pos n = take (unat n) (drop (unat pos) f)"

definition fetch_node_name :: "string \<Rightarrow> string" where
  "fetch_node_name f =
     (let pos = (ucast (string_find f (CHR '':'')) :: 32 word)
      in substr f 0 (scast pos))"

fun fetch_loop :: "string set \<Rightarrow> string list \<Rightarrow> string set" where
  "fetch_loop fetch_nodes [] = fetch_nodes"
| "fetch_loop fetch_nodes (f # fs) = fetch_loop (insert (fetch_node_name f) fetch_nodes) fs"

subsection \<open>The node sets\<close>

text \<open>
  \<open>nodes_to_preserve\<close> as first built (lines 114 to 125): the feed names, then
  \<open>keep_ops\<close>, then \<open>init_ops\<close>.
\<close>

definition feeds_keep_init :: "GrapplerItem \<Rightarrow> string set" where
  "feeds_keep_init item = set (map fst (feed item)) \<union> set (keep_ops item) \<union> set (init_ops item)"

text \<open>The names of the nodes whose type is one of the disabled ops.\<close>

fun disabled_loop :: "string set \<Rightarrow> string set \<Rightarrow> NodeDef list \<Rightarrow> string set" where
  "disabled_loop disabled_ops_set disabled_nodes [] = disabled_nodes"
| "disabled_loop disabled_ops_set disabled_nodes (itr # rest) =
     disabled_loop disabled_ops_set
       (if op itr \<in> disabled_ops_set then insert (name itr) disabled_nodes else disabled_nodes)
       rest"

text \<open>\<open>nodes_to_add_identity_to = fetch_nodes - disabled_nodes\<close> (\<open>std::set_difference\<close>).\<close>

definition nodes_to_add_identity_to :: "string set \<Rightarrow> Graph \<Rightarrow> GrapplerItem \<Rightarrow> string set" where
  "nodes_to_add_identity_to disabled_ops_set g item =
     fetch_loop {} (fetch item) - disabled_loop disabled_ops_set {} (nodes g)"

text \<open>\<open>nodes_to_preserve\<close> as it stands after line 158.\<close>

definition nodes_to_preserve :: "string set \<Rightarrow> Graph \<Rightarrow> GrapplerItem \<Rightarrow> string set" where
  "nodes_to_preserve disabled_ops_set g item =
     feeds_keep_init item \<union> nodes_to_add_identity_to disabled_ops_set g item"

subsection \<open>Marking\<close>

text \<open>
  The loop over the nodes the checker returned (lines 197 to 205): each gets the attribute
  \<open>_ovtf_marked_for_clustering = true\<close>, then the attribute setter registered for its
  type, if there is one. The checker returns pointers to nodes of the graph it was given;
  a position that is not in the graph marks nothing.
\<close>

definition mark_node :: "(string \<rightharpoonup> (NodeDef \<Rightarrow> NodeDef)) \<Rightarrow> NodeDef \<Rightarrow> NodeDef" where
  "mark_node set_attributes_map n =
     (let n' = n\<lparr>attr := (attr n)(''_ovtf_marked_for_clustering'' \<mapsto> AttrB True)\<rparr>
      in case set_attributes_map (op n') of None \<Rightarrow> n' | Some setter \<Rightarrow> setter n')"

fun mark_loop :: "(string \<rightharpoonup> (NodeDef \<Rightarrow> NodeDef)) \<Rightarrow> nat list \<Rightarrow> Graph \<Rightarrow> Graph" where
  "mark_loop set_attributes_map [] g = g"
| "mark_loop set_attributes_map (void_node # nodes_list) g =
     mark_loop set_attributes_map nodes_list
       (if void_node < length (nodes g)
        then g\<lparr>nodes := (nodes g)[void_node := mark_node set_attributes_map (nodes g ! void_node)]\<rparr>
        else g)"

subsection \<open>What Optimize calls\<close>

text \<open>
  The functions and values \<open>Optimize\<close> uses without defining them: TensorFlow's graph
  conversion and cost estimator, the process environment, the bridge's API state, the
  backend manager, the operator capability checker and the three clustering phases that
  follow marking. Each is a parameter; a function that changes the graph in place and
  returns a \<open>Status\<close> gives both.
\<close>

record collaborators =
  ConvertGraphDefToGraph :: "GraphDef \<Rightarrow> Status \<times> Graph"
  estimator_Initialize :: "GrapplerItem \<Rightarrow> Status"
  getenv :: "string \<Rightarrow> string option"
  api_IsEnabled :: bool
  IsAlreadyProcessed :: "Graph \<Rightarrow> bool"
  api_GetDisabledOps :: "string set"
  AddIdentityN :: "Graph \<Rightarrow> string set \<Rightarrow> Status \<times> Graph"
  GetBackendName :: "Status \<times> string"
  OPENVINO_2022_1 :: bool
  MarkSupportedNodes :: "string \<Rightarrow> string \<Rightarrow> string set \<Rightarrow> Graph \<Rightarrow> nat list"
  GetAttributeSetters :: "string \<rightharpoonup> (NodeDef \<Rightarrow> NodeDef)"
  AssignClusters :: "Graph \<Rightarrow> Status \<times> Graph"
  DeassignClusters :: "Graph \<Rightarrow> Status \<times> Graph"
  EncapsulateClusters :: "Graph \<Rightarrow> int \<Rightarrow> (string \<rightharpoonup> string) \<Rightarrow> Status \<times> Graph"
  ToGraphDef :: "Graph \<Rightarrow> GraphDef"

text \<open>The calls with an effect outside the function, in the order they are made.\<close>

datatype event =
    Call_EvictAllClusters
  | Call_EvictMRUClusters
  | Call_AddIdentityN "string set"
  | Call_DumpTFGraph Graph int string
  | Call_GetBackendName
  | Call_MarkSupportedNodes
  | Call_AssignClusters
  | Call_DeassignClusters
  | Call_EncapsulateClusters int "string \<rightharpoonup> string"

text \<open>
  How an invocation ends: it returns a \<open>Status\<close> or throws a \<open>runtime_error\<close>.
  \<open>output_def\<close> is \<open>None\<close> while \<open>*output\<close> has not been written.
\<close>

datatype outcome = Returned Status | Thrown string

record run =
  outcome :: outcome
  output_def :: "GraphDef option"
  events :: "event list"
  serial :: "32 word"

definition stop :: "outcome \<Rightarrow> event list \<Rightarrow> 32 word \<Rightarrow> run" where
  "stop out evs counter = \<lparr>outcome = out, output_def = None, events = evs, serial = counter\<rparr>"

text \<open>
  \<open>openvino_tf_disable_env[0]\<close>: the first character of the C string, which is the
  terminating NUL when the string is empty.
\<close>

definition first_char :: "string \<Rightarrow> char" where
  "first_char v = (case v of [] \<Rightarrow> CHR 0x00 | ch # rest \<Rightarrow> ch)"

definition env_disabled :: "string option \<Rightarrow> bool" where
  "env_disabled openvino_tf_disable_env =
     (case openvino_tf_disable_env of
        None \<Rightarrow> False
      | Some v \<Rightarrow> (let env_value = first_char v in env_value = CHR ''1''))"

definition ovtf_not_enabled :: "collaborators \<Rightarrow> bool" where
  "ovtf_not_enabled c = (\<not> api_IsEnabled c \<or> env_disabled (getenv c ''OPENVINO_TF_DISABLE''))"

text \<open>\<^verbatim>\<open>#if defined(OPENVINO_2022_1) ov_version = "2022.1.0";\<close>\<close>

definition ov_version :: "collaborators \<Rightarrow> string" where
  "ov_version c = (if OPENVINO_2022_1 c then ''2022.1.0'' else [])"

text \<open>Lines 172 to 225: the four phases and the five dumps.\<close>

definition phases :: "collaborators \<Rightarrow> OVTFOptimizer \<Rightarrow> int \<Rightarrow> 32 word \<Rightarrow> event list \<Rightarrow> Graph \<Rightarrow> run" where
  "phases c this idx counter evs0 graph1 =
     (let evs1 = evs0 @ [Call_DumpTFGraph graph1 idx ''unmarked'', Call_GetBackendName] in
      case GetBackendName c of (exec_status, device) \<Rightarrow>
      if exec_status \<noteq> OK then stop (Thrown (error_message exec_status)) evs1 counter
      else
      let nodes_list = MarkSupportedNodes c device (ov_version c) (api_GetDisabledOps c) graph1;
          graph2 = mark_loop (GetAttributeSetters c) nodes_list graph1;
          evs2 = evs1 @ [Call_MarkSupportedNodes, Call_DumpTFGraph graph2 idx ''marked'',
                         Call_AssignClusters] in
      case AssignClusters c graph2 of (assign_status, graph3) \<Rightarrow>
      if \<not> ok assign_status then stop (Returned assign_status) evs2 counter
      else
      let evs3 = evs2 @ [Call_DumpTFGraph graph3 idx ''clustered'', Call_DeassignClusters] in
      case DeassignClusters c graph3 of (deassign_status, graph4) \<Rightarrow>
      if \<not> ok deassign_status then stop (Returned deassign_status) evs3 counter
      else
      let evs4 = evs3 @ [Call_DumpTFGraph graph4 idx ''declustered'',
                         Call_EncapsulateClusters idx (m_config_map this)] in
      case EncapsulateClusters c graph4 idx (m_config_map this) of (status, graph5) \<Rightarrow>
      if status \<noteq> OK then stop (Returned status) evs4 counter
      else
        \<lparr>outcome = Returned OK, output_def = Some (ToGraphDef c graph5),
         events = evs4 @ [Call_DumpTFGraph graph5 idx ''encapsulated''], serial = counter\<rparr>)"

text \<open>
  The whole function. \<open>TF_RETURN_IF_ERROR(e)\<close> returns the status of \<open>e\<close> when it is not
  \<open>ok\<close>. \<open>nodes_to_preserve\<close> (here \<open>preserve\<close>) is built as in the source, in two steps,
  and, as in the source, nothing reads it afterwards. Logging is left out, and so is
  \<open>PredictCosts\<close>, whose status and results the function does not use. The last argument
  is the static \<open>s_serial_counter\<close>; its new value is \<open>serial\<close> of the result.
\<close>

definition Optimize :: "collaborators \<Rightarrow> OVTFOptimizer \<Rightarrow> GrapplerItem \<Rightarrow> 32 word \<Rightarrow> run" where
  "Optimize c this item s_serial_counter =
     (let grappler_item = item;
          graph_def = graph grappler_item in
      case ConvertGraphDefToGraph c graph_def of (convert_status, graph0) \<Rightarrow>
      if \<not> ok convert_status then stop (Returned convert_status) [] s_serial_counter
      else
      let init_status = estimator_Initialize c grappler_item in
      if \<not> ok init_status then stop (Returned init_status) [] s_serial_counter
      else
      case FreshIndex s_serial_counter of (idx, counter) \<Rightarrow>
      let already_processed = IsAlreadyProcessed c graph0 in
      if ovtf_not_enabled c \<or> already_processed then
        \<lparr>outcome = Returned OK, output_def = Some (ToGraphDef c graph0),
         events = [Call_EvictAllClusters, Call_EvictMRUClusters], serial = counter\<rparr>
      else
      let preserve = feeds_keep_init item;
          to_add = nodes_to_add_identity_to (api_GetDisabledOps c) graph0 item;
          evs0 = [Call_AddIdentityN to_add] in
      case AddIdentityN c graph0 to_add of (identity_status, graph1) \<Rightarrow>
      if \<not> ok identity_status then stop (Returned identity_status) evs0 counter
      else
      let preserve = preserve \<union> to_add in
      phases c this idx counter evs0 graph1)"

section \<open>OVTFGraphIterator\<close>

text \<open>
  \<open>m_nodes\<close> is a vector of pointers to the nodes of the \<open>GraphDef\<close>; a pointer is
  \<open>Some\<close> node, and \<open>None\<close> is the null pointer \<open>resize\<close> fills the vector with.
  \<open>node_index\<close> is a \<open>size_t\<close>.
\<close>

record OVTFGraphIterator =
  m_nodes :: "NodeDef option list"
  node_index :: "64 word"
  m_graph_def :: GraphDef

datatype OVTFDecoder = OVTFDecoder "NodeDef option"

definition node_size :: "GraphDef \<Rightarrow> nat" where
  "node_size g = length (node g)"

text \<open>\<open>&m_graph_def->node(i)\<close>; there is no node to point to beyond the last one.\<close>

definition node_ptr :: "GraphDef \<Rightarrow> nat \<Rightarrow> NodeDef option" where
  "node_ptr g i = (if i < node_size g then Some (node g ! i) else None)"

function ctor_loop :: "GraphDef \<Rightarrow> nat \<Rightarrow> NodeDef option list \<Rightarrow> NodeDef option list" where
  "ctor_loop g i ms = (if i < length ms then ctor_loop g (Suc i) (ms[i := node_ptr g i]) else ms)"
  by pat_completeness auto
termination
  by (relation "measure (\<lambda>(g, i, ms). length ms - i)") auto

declare ctor_loop.simps [simp del]

definition new_OVTFGraphIterator :: "GraphDef \<Rightarrow> OVTFGraphIterator" where
  "new_OVTFGraphIterator graph_def =
     \<lparr>m_nodes = ctor_loop graph_def 0 (replicate (node_size graph_def) None),
      node_index = 0, m_graph_def = graph_def\<rparr>"

definition reset :: "OVTFGraphIterator \<Rightarrow> OVTFGraphIterator" where
  "reset it = it\<lparr>node_index := 0\<rparr>"

definition it_size :: "OVTFGraphIterator \<Rightarrow> 64 word" where
  "it_size it = of_nat (length (m_nodes it))"

definition it_next :: "OVTFGraphIterator \<Rightarrow> OVTFGraphIterator" where
  "it_next it = it\<lparr>node_index := node_index it + 1\<rparr>"

definition is_end :: "OVTFGraphIterator \<Rightarrow> bool" where
  "is_end it = (node_index it \<ge> it_size it)"

text \<open>
  \<open>m_nodes[node_index]\<close> is defined only inside the vector; \<open>None\<close> stands for the
  read past its end.
\<close>

definition get_decoder :: "OVTFGraphIterator \<Rightarrow> OVTFDecoder option" where
  "get_decoder it =
     (if unat (node_index it) < length (m_nodes it)
      then Some (OVTFDecoder (m_nodes it ! unat (node_index it)))
      else None)"

text \<open>
  A traversal as a client of the iterator interface makes it: from the current position,
  read the decoder and move on until \<open>is_end\<close>.
\<close>

function traverse :: "OVTFGraphIterator \<Rightarrow> OVTFDecoder option list" where
  "traverse it = (if is_end it then [] else get_decoder it # traverse (it_next it))"
  by pat_completeness auto
termination
proof (relation "measure (\<lambda>it. unat (it_size it) - unat (node_index it))")
  show "wf (measure (\<lambda>it. unat (it_size it) - unat (node_index it)))"
    by simp
next
  fix it :: OVTFGraphIterator
  assume "\<not> is_end it"
  then have lt: "node_index it < it_size it"
    by (simp add: is_end_def not_le)
  then have "1 + node_index it \<noteq> 0"
    by (metis add_eq_0_iff word_order.extremum_strict)
  then have "unat (node_index it + 1) = Suc (unat (node_index it))"
    by (simp add: unatSuc add.commute)
  moreover have "it_size (it_next it) = it_size it"
    by (simp add: it_size_def it_next_def)
  moreover have "node_index (it_next it) = node_index it + 1"
    by (simp add: it_next_def)
  moreover have "unat (node_index it) < unat (it_size it)"
    using lt by (simp add: word_less_nat_alt)
  ultimately show "(it_next it, it) \<in> measure (\<lambda>it. unat (it_size it) - unat (node_index it))"
    by simp
qed

declare traverse.simps [simp del]

section \<open>Stages of an invocation\<close>

text \<open>
  Names for the graph at each point of \<open>Optimize\<close>, and for the conditions under which
  control gets there. They only abbreviate the statements below.
\<close>

definition converted_graph :: "collaborators \<Rightarrow> GrapplerItem \<Rightarrow> Graph" where
  "converted_graph c item = snd (ConvertGraphDefToGraph c (graph item))"

definition identity_targets :: "collaborators \<Rightarrow> GrapplerItem \<Rightarrow> string set" where
  "identity_targets c item =
     nodes_to_add_identity_to (api_GetDisabledOps c) (converted_graph c item) item"

definition unmarked_graph :: "collaborators \<Rightarrow> GrapplerItem \<Rightarrow> Graph" where
  "unmarked_graph c item = snd (AddIdentityN c (converted_graph c item) (identity_targets c item))"

definition marked_graph :: "collaborators \<Rightarrow> GrapplerItem \<Rightarrow> Graph" where
  "marked_graph c item =
     mark_loop (GetAttributeSetters c)
       (MarkSupportedNodes c (snd (GetBackendName c)) (ov_version c) (api_GetDisabledOps c)
          (unmarked_graph c item))
       (unmarked_graph c item)"

definition clustered_graph :: "collaborators \<Rightarrow> GrapplerItem \<Rightarrow> Graph" where
  "clustered_graph c item = snd (AssignClusters c (marked_graph c item))"

definition declustered_graph :: "collaborators \<Rightarrow> GrapplerItem \<Rightarrow> Graph" where
  "declustered_graph c item = snd (DeassignClusters c (clustered_graph c item))"

definition encapsulation :: "collaborators \<Rightarrow> OVTFOptimizer \<Rightarrow> GrapplerItem \<Rightarrow> int \<Rightarrow> Status \<times> Graph" where
  "encapsulation c this item idx =
     EncapsulateClusters c (declustered_graph c item) idx (m_config_map this)"

text \<open>The graph was converted and the cost estimator initialised (lines 60 and 71).\<close>

definition passes_entry :: "collaborators \<Rightarrow> GrapplerItem \<Rightarrow> bool" where
  "passes_entry c item =
     (ok (fst (ConvertGraphDefToGraph c (graph item))) \<and> ok (estimator_Initialize c item))"

text \<open>The condition of line 101.\<close>

definition soft_skip :: "collaborators \<Rightarrow> GrapplerItem \<Rightarrow> bool" where
  "soft_skip c item = (ovtf_not_enabled c \<or> IsAlreadyProcessed c (converted_graph c item))"

text \<open>Control reaches the backend-name query of line 178.\<close>

definition reaches_marking :: "collaborators \<Rightarrow> GrapplerItem \<Rightarrow> bool" where
  "reaches_marking c item =
     (passes_entry c item \<and> \<not> soft_skip c item \<and>
      ok (fst (AddIdentityN c (converted_graph c item) (identity_targets c item))))"

text \<open>Control reaches the call of \<open>EncapsulateClusters\<close> of line 217.\<close>

definition reaches_encapsulation :: "collaborators \<Rightarrow> GrapplerItem \<Rightarrow> bool" where
  "reaches_encapsulation c item =
     (reaches_marking c item \<and> fst (GetBackendName c) = OK \<and>
      ok (fst (AssignClusters c (marked_graph c item))) \<and>
      ok (fst (DeassignClusters c (clustered_graph c item))))"

section \<open>A small instance\<close>

text \<open>
  Two \<open>Relu\<close> nodes, \<open>x\<close> feeding \<open>y\<close>; \<open>x\<close> is a feed of the item. The capability
  checker supports \<open>Relu\<close> unless it is disabled, graph conversion keeps the node list,
  and the backend is \<open>CPU\<close>. There is no fetch, so \<open>AddIdentityN\<close> has nothing to
  insert. The phases after marking take part in the statements below only as variables,
  or through their status; here they leave the graph as it is.
\<close>

definition demo_nodes :: "NodeDef list" where
  "demo_nodes =
     [\<lparr>name = ''x'', op = ''Relu'', input = [], attr = Map.empty\<rparr>,
      \<lparr>name = ''y'', op = ''Relu'', input = [''x''], attr = Map.empty\<rparr>]"

definition demo_item :: GrapplerItem where
  "demo_item =
     \<lparr>item_id = ''demo'', graph = \<lparr>node = demo_nodes\<rparr>, feed = [(''x'', [1])],
      fetch = [], keep_ops = [], init_ops = []\<rparr>"

fun supported_from :: "string set \<Rightarrow> nat \<Rightarrow> NodeDef list \<Rightarrow> nat list" where
  "supported_from disabled i [] = []"
| "supported_from disabled i (n # ns) =
     (if op n = ''Relu'' \<and> op n \<notin> disabled
      then i # supported_from disabled (Suc i) ns
      else supported_from disabled (Suc i) ns)"

definition demo_collaborators :: collaborators where
  "demo_collaborators =
     \<lparr>ConvertGraphDefToGraph = (\<lambda>gd. (OK, \<lparr>nodes = node gd\<rparr>)),
      estimator_Initialize = (\<lambda>i. OK),
      getenv = (\<lambda>v. None),
      api_IsEnabled = True,
      IsAlreadyProcessed = (\<lambda>g. list_ex (\<lambda>n. op n = ''_nGraphEncapsulate'') (nodes g)),
      api_GetDisabledOps = {},
      AddIdentityN = (\<lambda>g ns. (OK, g)),
      GetBackendName = (OK, ''CPU''),
      OPENVINO_2022_1 = True,
      MarkSupportedNodes = (\<lambda>device version disabled g. supported_from disabled 0 (nodes g)),
      GetAttributeSetters = Map.empty,
      AssignClusters = (\<lambda>g. (OK, g)),
      DeassignClusters = (\<lambda>g. (OK, g)),
      EncapsulateClusters = (\<lambda>g idx config. (OK, g)),
      ToGraphDef = (\<lambda>g. \<lparr>node = nodes g\<rparr>)\<rparr>"

definition demo_optimizer :: OVTFOptimizer where
  "demo_optimizer = \<lparr>m_config_map = Map.empty\<rparr>"

text \<open>The same instance with the three phases after marking left open.\<close>

definition demo_with_phases ::
  "(Graph \<Rightarrow> Status \<times> Graph) \<Rightarrow> (Graph \<Rightarrow> Status \<times> Graph) \<Rightarrow>
   (Graph \<Rightarrow> int \<Rightarrow> (string \<rightharpoonup> string) \<Rightarrow> Status \<times> Graph) \<Rightarrow> collaborators" where
  "demo_with_phases assign deassign encapsulate =
     demo_collaborators\<lparr>AssignClusters := assign, DeassignClusters := deassign,
       EncapsulateClusters := encapsulate\<rparr>"

text \<open>The environment variable \<open>OPENVINO_TF_DISABLE\<close> set to \<open>10\<close>.\<close>

definition demo_env_10 :: collaborators where
  "demo_env_10 =
     demo_collaborators\<lparr>getenv := (\<lambda>v. if v = ''OPENVINO_TF_DISABLE'' then Some ''10'' else None)\<rparr>"

text \<open>An item whose graph already holds an encapsulated cluster.\<close>

definition processed_item :: GrapplerItem where
  "processed_item =
     demo_item\<lparr>graph := \<lparr>node =
       [\<lparr>name = ''ovtf_cluster_0'', op = ''_nGraphEncapsulate'', input = [], attr = Map.empty\<rparr>]\<rparr>\<rparr>"

text \<open>No backend is set: the backend manager cannot name a device.\<close>

definition demo_backend_unset :: collaborators where
  "demo_backend_unset =
     demo_collaborators\<lparr>GetBackendName := (Error INTERNAL ''Backend is not set'', [])\<rparr>"

text \<open>\<open>EncapsulateClusters\<close> fails.\<close>

definition demo_encapsulation_fails :: collaborators where
  "demo_encapsulation_fails =
     demo_collaborators\<lparr>EncapsulateClusters :=
       (\<lambda>g idx config. (Error INTERNAL ''Dangling edge in cluster signature'', g))\<rparr>"

text \<open>The backend manager fails with another status code and the same message.\<close>

definition demo_backend_not_found :: collaborators where
  "demo_backend_not_found =
     demo_collaborators\<lparr>GetBackendName := (Error NOT_FOUND ''Backend is not set'', [])\<rparr>"

text \<open>
  \<open>EncapsulateClusters\<close> replaces the graph by one fused node that records the
  configuration map it was given.
\<close>

definition demo_encapsulating :: collaborators where
  "demo_encapsulating =
     demo_collaborators\<lparr>EncapsulateClusters :=
       (\<lambda>g idx config.
          (OK, \<lparr>nodes = [\<lparr>name = ''ovtf_cluster_0'', op = ''_nGraphEncapsulate'', input = [],
                           attr = (\<lambda>k. map_option AttrS (config k))\<rparr>]\<rparr>))\<rparr>"

section \<open>The already-processed marker\<close>

text \<open>
  Modelled from the spec: the setting of the already-processed marker.
  \<open>util::IsAlreadyProcessed\<close> and the code that sets the marker are not under \<open>src/\<close>. The
  spec has the pass detect, "via a graph-level attribute set on first successful run",
  that it has already processed a graph. A run is successful when \<open>EncapsulateClusters\<close>,
  the last step that changes the graph, returns \<open>OK\<close>; the graph it leaves then carries
  the marker.
\<close>

definition sets_processed_marker :: "collaborators \<Rightarrow> bool" where
  "sets_processed_marker c =
     (\<forall>g idx config. fst (EncapsulateClusters c g idx config) = OK \<longrightarrow>
        IsAlreadyProcessed c (snd (EncapsulateClusters c g idx config)))"

text \<open>
  TensorFlow's two conversions: a \<open>GraphDef\<close> written from a graph converts back to that
  graph.
\<close>

definition round_trips :: "collaborators \<Rightarrow> bool" where
  "round_trips c = (\<forall>g. ConvertGraphDefToGraph c (ToGraphDef c g) = (OK, g))"

text \<open>
  TensorFlow's \<open>AnalyticalCostEstimator::Initialize\<close> keeps a pointer to the item and
  returns \<open>OK\<close>.
\<close>

definition estimator_initialises :: "collaborators \<Rightarrow> bool" where
  "estimator_initialises c = (\<forall>i. estimator_Initialize c i = OK)"

section \<open>Properties\<close>

subsection \<open>Word arithmetic\<close>


lemma narrow_widen_small:
  assumes "i < 2 ^ 31"
  shows "unat (scast (ucast (of_nat i :: 64 word) :: 32 word) :: 64 word) = i"
proof -
  have i64: "i < 2 ^ 64"
    using assms by (rule less_trans) simp
  have u: "(ucast (of_nat i :: 64 word) :: 32 word) = of_nat i"
    using i64 by (simp add: unsigned_of_nat take_bit_nat_eq_self)
  have "- (2 ^ 31) \<le> int i"
    by (rule order_trans [of _ 0]) simp_all
  moreover have "int i < 2 ^ 31"
    using assms by (metis of_nat_less_iff of_nat_numeral of_nat_power)
  ultimately have "signed_take_bit 31 (int i) = int i"
    by (rule signed_take_bit_int_eq_self)
  then have "sint (word_of_int (int i) :: 32 word) = int i"
    by (simp only: sint_sbintrunc') simp
  then have "(scast (of_nat i :: 32 word) :: 64 word) = of_nat i"
    by (simp add: scast_eq)
  then show ?thesis
    using i64 by (simp add: u unat_of_nat)
qed

lemma narrow_widen_npos:
  "unat (scast (ucast npos :: 32 word) :: 64 word) = 2 ^ 64 - 1"
proof -
  have "(ucast (- 1 :: 64 word) :: 32 word) = - 1"
    by (rule bit_word_eqI) (simp add: bit_simps)
  then show ?thesis
    by (simp add: npos_def scast_n1 unsigned_minus_1_eq_mask mask_eq_exp_minus_1)
qed

subsection \<open>Fetch names\<close>

lemma find_first_None: "find_first c f = None \<longleftrightarrow> c \<notin> set f"
  by (induction f) auto

lemma find_first_Some:
  "find_first c f = Some i \<Longrightarrow> i = length (takeWhile (\<lambda>x. x \<noteq> c) f) \<and> i < length f"
  by (induction f arbitrary: i) (auto split: if_splits)

lemma fetch_node_name_takeWhile:
  assumes "length f < 2 ^ 31"
  shows "fetch_node_name f = takeWhile (\<lambda>ch. ch \<noteq> CHR '':'') f"
proof (cases "find_first (CHR '':'') f")
  case None
  then have all: "takeWhile (\<lambda>ch. ch \<noteq> CHR '':'') f = f"
    by (auto simp: find_first_None)
  have "length f \<le> 2 ^ 64 - 1"
    using assms by simp
  then have "take (2 ^ 64 - 1) f = f"
    by (rule take_all)
  then show ?thesis
    using None
    by (simp add: fetch_node_name_def string_find_def substr_def narrow_widen_npos all)
next
  case (Some i)
  then have i: "i = length (takeWhile (\<lambda>ch. ch \<noteq> CHR '':'') f)" and "i < length f"
    using find_first_Some by blast+
  then have "i < 2 ^ 31"
    using assms by simp
  then have "unat (scast (ucast (of_nat i :: 64 word) :: 32 word) :: 64 word) = i"
    by (rule narrow_widen_small)
  then have "fetch_node_name f = take i f"
    using Some by (simp add: fetch_node_name_def string_find_def substr_def)
  then show ?thesis
    using i takeWhile_eq_take [of "\<lambda>ch. ch \<noteq> CHR '':''" f] by simp
qed

lemma fetch_loop_image: "fetch_loop acc fs = acc \<union> fetch_node_name ` set fs"
  by (induction fs arbitrary: acc) auto

lemma disabled_loop_names:
  "disabled_loop d acc ns = acc \<union> {name n | n. n \<in> set ns \<and> op n \<in> d}"
  by (induction ns arbitrary: acc) auto

text \<open>
  C7, as amended. For every fetch entry of the item (shorter than \<open>2^31\<close> characters, so
  that the position of a \<open>':'\<close> fits the \<open>int\<close> the source keeps it in), the name the loop
  computes is the part of the entry before the first \<open>':'\<close> when there is one and the
  whole entry when there is none. Each entry contributes exactly this one name to
  \<open>fetch_nodes\<close>: the set is the image of the entries under it. The name is recorded in
  the protected set \<open>nodes_to_preserve\<close> exactly when it is a feed, keep-alive or init-op
  name or no node of that name has a disabled type.
\<close>

theorem fetch_names_before_colon:
  assumes "\<forall>f \<in> set (fetch item). length f < 2 ^ 31"
  shows "(\<forall>f \<in> set (fetch item).
            fetch_node_name f =
              (if CHR '':'' \<in> set f then takeWhile (\<lambda>ch. ch \<noteq> CHR '':'') f else f)) \<and>
         fetch_loop {} (fetch item) = fetch_node_name ` set (fetch item) \<and>
         (\<forall>f \<in> set (fetch item).
            (fetch_node_name f \<in> nodes_to_preserve d g item) =
              (fetch_node_name f \<in> feeds_keep_init item \<or>
               (\<forall>n \<in> set (nodes g). name n = fetch_node_name f \<longrightarrow> op n \<notin> d)))"
proof -
  have "fetch_node_name f = (if CHR '':'' \<in> set f then takeWhile (\<lambda>ch. ch \<noteq> CHR '':'') f else f)"
    if "f \<in> set (fetch item)" for f
  proof -
    have "length f < 2 ^ 31"
      using assms that by blast
    then have "fetch_node_name f = takeWhile (\<lambda>ch. ch \<noteq> CHR '':'') f"
      by (rule fetch_node_name_takeWhile)
    then show ?thesis
      by auto
  qed
  moreover have "(fetch_node_name f \<in> nodes_to_preserve d g item) =
      (fetch_node_name f \<in> feeds_keep_init item \<or>
       (\<forall>n \<in> set (nodes g). name n = fetch_node_name f \<longrightarrow> op n \<notin> d))"
    if "f \<in> set (fetch item)" for f
    using that
    by (auto simp: nodes_to_preserve_def nodes_to_add_identity_to_def fetch_loop_image
        disabled_loop_names)
  ultimately show ?thesis
    by (simp add: fetch_loop_image)
qed

theorem fetch_names_before_colon_witness:
  "length ''y:0'' < 2 ^ 31 \<and> length ''x'' < 2 ^ 31 \<and>
   fetch_node_name ''y:0'' = ''y'' \<and> fetch_node_name ''x'' = ''x'' \<and>
   fetch_loop {} (fetch (demo_item\<lparr>fetch := [''y:0'', ''x'']\<rparr>)) = {''y'', ''x''} \<and>
   ''y'' \<in> nodes_to_preserve {} \<lparr>nodes = demo_nodes\<rparr> (demo_item\<lparr>fetch := [''y:0'', ''x'']\<rparr>)"
proof -
  have h: "\<forall>f \<in> set (fetch (demo_item\<lparr>fetch := [''y:0'', ''x'']\<rparr>)). length f < 2 ^ 31"
    by simp
  note T = fetch_names_before_colon [OF h, of "{}" "\<lparr>nodes = demo_nodes\<rparr>"]
  have n: "fetch_node_name ''y:0'' = ''y''" and x: "fetch_node_name ''x'' = ''x''"
    using T by simp_all
  have l: "fetch_loop {} (fetch (demo_item\<lparr>fetch := [''y:0'', ''x'']\<rparr>)) = {''y'', ''x''}"
    using T by (simp add: n x)
  have "''y:0'' \<in> set (fetch (demo_item\<lparr>fetch := [''y:0'', ''x'']\<rparr>))"
    by simp
  then have "(fetch_node_name ''y:0''
        \<in> nodes_to_preserve {} \<lparr>nodes = demo_nodes\<rparr> (demo_item\<lparr>fetch := [''y:0'', ''x'']\<rparr>)) =
      (fetch_node_name ''y:0'' \<in> feeds_keep_init (demo_item\<lparr>fetch := [''y:0'', ''x'']\<rparr>) \<or>
       (\<forall>n \<in> set (nodes \<lparr>nodes = demo_nodes\<rparr>). name n = fetch_node_name ''y:0'' \<longrightarrow> op n \<notin> {}))"
    using T by blast
  then have "fetch_node_name ''y:0''
      \<in> nodes_to_preserve {} \<lparr>nodes = demo_nodes\<rparr> (demo_item\<lparr>fetch := [''y:0'', ''x'']\<rparr>)"
    by blast
  then have p: "''y''
      \<in> nodes_to_preserve {} \<lparr>nodes = demo_nodes\<rparr> (demo_item\<lparr>fetch := [''y:0'', ''x'']\<rparr>)"
    by (simp only: n)
  have b: "length ''y:0'' < 2 ^ 31 \<and> length ''x'' < 2 ^ 31"
    using h by simp
  show ?thesis
    using b n x l p by blast
qed

text \<open>
  C7 as stated fails: the name of a fetch entry is not always recorded in the protected
  set. With \<open>Relu\<close> disabled, the fetch entry \<open>y:0\<close> of the \<open>Relu\<close> node \<open>y\<close> gives the name
  \<open>y\<close>, which \<open>nodes_to_add_identity_to\<close> drops and \<open>nodes_to_preserve\<close> never receives.
\<close>

theorem fetch_name_not_preserved_counterexample:
  "''y:0'' \<in> set (fetch (demo_item\<lparr>fetch := [''y:0'']\<rparr>)) \<and>
   fetch_node_name ''y:0'' = ''y'' \<and>
   ''y'' \<notin> nodes_to_preserve {''Relu''} \<lparr>nodes = demo_nodes\<rparr> (demo_item\<lparr>fetch := [''y:0'']\<rparr>)"
proof -
  have n: "fetch_node_name ''y:0'' = ''y''"
    by (simp add: fetch_node_name_takeWhile)
  show ?thesis
    by (simp add: n nodes_to_preserve_def nodes_to_add_identity_to_def feeds_keep_init_def
        demo_item_def demo_nodes_def)
qed

subsection \<open>Unfolding Optimize\<close>

lemma Optimize_convert_fails:
  "\<not> ok (fst (ConvertGraphDefToGraph c (graph item))) \<Longrightarrow>
     Optimize c this item sc = stop (Returned (fst (ConvertGraphDefToGraph c (graph item)))) [] sc"
  by (simp add: Optimize_def case_prod_beta Let_def)

lemma Optimize_estimator_fails:
  "ok (fst (ConvertGraphDefToGraph c (graph item))) \<Longrightarrow> \<not> ok (estimator_Initialize c item) \<Longrightarrow>
     Optimize c this item sc = stop (Returned (estimator_Initialize c item)) [] sc"
  by (simp add: Optimize_def case_prod_beta Let_def)

lemma Optimize_soft_skip:
  "passes_entry c item \<Longrightarrow> soft_skip c item \<Longrightarrow>
     Optimize c this item sc =
       \<lparr>outcome = Returned OK, output_def = Some (ToGraphDef c (converted_graph c item)),
        events = [Call_EvictAllClusters, Call_EvictMRUClusters], serial = sc + 1\<rparr>"
  by (simp add: Optimize_def passes_entry_def soft_skip_def converted_graph_def FreshIndex_def
      case_prod_beta Let_def)

lemma Optimize_identity_fails:
  "passes_entry c item \<Longrightarrow> \<not> soft_skip c item \<Longrightarrow>
   \<not> ok (fst (AddIdentityN c (converted_graph c item) (identity_targets c item))) \<Longrightarrow>
     Optimize c this item sc =
       stop (Returned (fst (AddIdentityN c (converted_graph c item) (identity_targets c item))))
         [Call_AddIdentityN (identity_targets c item)] (sc + 1)"
  by (simp add: Optimize_def passes_entry_def soft_skip_def converted_graph_def FreshIndex_def
      identity_targets_def case_prod_beta Let_def)

lemma Optimize_reaches_marking:
  "reaches_marking c item \<Longrightarrow>
     Optimize c this item sc =
       phases c this (sint sc) (sc + 1) [Call_AddIdentityN (identity_targets c item)]
         (unmarked_graph c item)"
  by (simp add: Optimize_def reaches_marking_def passes_entry_def soft_skip_def converted_graph_def
      FreshIndex_def identity_targets_def unmarked_graph_def case_prod_beta Let_def)


lemma phases_backend_fails:
  "fst (GetBackendName c) \<noteq> OK \<Longrightarrow>
     phases c this idx counter evs0 (unmarked_graph c item) =
       stop (Thrown (error_message (fst (GetBackendName c))))
         (evs0 @ [Call_DumpTFGraph (unmarked_graph c item) idx ''unmarked'', Call_GetBackendName])
         counter"
  by (simp add: phases_def case_prod_beta Let_def)

lemma phases_assign_fails:
  "fst (GetBackendName c) = OK \<Longrightarrow> \<not> ok (fst (AssignClusters c (marked_graph c item))) \<Longrightarrow>
     phases c this idx counter evs0 (unmarked_graph c item) =
       stop (Returned (fst (AssignClusters c (marked_graph c item))))
         (evs0 @ [Call_DumpTFGraph (unmarked_graph c item) idx ''unmarked'', Call_GetBackendName,
                  Call_MarkSupportedNodes, Call_DumpTFGraph (marked_graph c item) idx ''marked'',
                  Call_AssignClusters])
         counter"
  by (simp add: phases_def marked_graph_def case_prod_beta Let_def)

lemma phases_deassign_fails:
  "fst (GetBackendName c) = OK \<Longrightarrow> ok (fst (AssignClusters c (marked_graph c item))) \<Longrightarrow>
   \<not> ok (fst (DeassignClusters c (clustered_graph c item))) \<Longrightarrow>
     phases c this idx counter evs0 (unmarked_graph c item) =
       stop (Returned (fst (DeassignClusters c (clustered_graph c item))))
         (evs0 @ [Call_DumpTFGraph (unmarked_graph c item) idx ''unmarked'', Call_GetBackendName,
                  Call_MarkSupportedNodes, Call_DumpTFGraph (marked_graph c item) idx ''marked'',
                  Call_AssignClusters, Call_DumpTFGraph (clustered_graph c item) idx ''clustered'',
                  Call_DeassignClusters])
         counter"
  by (simp add: phases_def marked_graph_def clustered_graph_def case_prod_beta Let_def)

lemma phases_encapsulate_fails:
  "fst (GetBackendName c) = OK \<Longrightarrow> ok (fst (AssignClusters c (marked_graph c item))) \<Longrightarrow>
   ok (fst (DeassignClusters c (clustered_graph c item))) \<Longrightarrow>
   fst (encapsulation c this item idx) \<noteq> OK \<Longrightarrow>
     phases c this idx counter evs0 (unmarked_graph c item) =
       stop (Returned (fst (encapsulation c this item idx)))
         (evs0 @ [Call_DumpTFGraph (unmarked_graph c item) idx ''unmarked'', Call_GetBackendName,
                  Call_MarkSupportedNodes, Call_DumpTFGraph (marked_graph c item) idx ''marked'',
                  Call_AssignClusters, Call_DumpTFGraph (clustered_graph c item) idx ''clustered'',
                  Call_DeassignClusters,
                  Call_DumpTFGraph (declustered_graph c item) idx ''declustered'',
                  Call_EncapsulateClusters idx (m_config_map this)])
         counter"
  by (simp add: phases_def marked_graph_def clustered_graph_def declustered_graph_def
      encapsulation_def case_prod_beta Let_def)

lemma phases_complete:
  "fst (GetBackendName c) = OK \<Longrightarrow> ok (fst (AssignClusters c (marked_graph c item))) \<Longrightarrow>
   ok (fst (DeassignClusters c (clustered_graph c item))) \<Longrightarrow>
   fst (encapsulation c this item idx) = OK \<Longrightarrow>
     phases c this idx counter evs0 (unmarked_graph c item) =
       \<lparr>outcome = Returned OK,
        output_def = Some (ToGraphDef c (snd (encapsulation c this item idx))),
        events =
          evs0 @ [Call_DumpTFGraph (unmarked_graph c item) idx ''unmarked'', Call_GetBackendName,
                  Call_MarkSupportedNodes, Call_DumpTFGraph (marked_graph c item) idx ''marked'',
                  Call_AssignClusters, Call_DumpTFGraph (clustered_graph c item) idx ''clustered'',
                  Call_DeassignClusters,
                  Call_DumpTFGraph (declustered_graph c item) idx ''declustered'',
                  Call_EncapsulateClusters idx (m_config_map this),
                  Call_DumpTFGraph (snd (encapsulation c this item idx)) idx ''encapsulated''],
        serial = counter\<rparr>"
  by (simp add: phases_def marked_graph_def clustered_graph_def declustered_graph_def
      encapsulation_def case_prod_beta Let_def)


lemma phases_forwards_config:
  assumes "Call_EncapsulateClusters i m \<in> set (events (phases c this idx counter evs0 g))"
    and "\<forall>i m. Call_EncapsulateClusters i m \<notin> set evs0"
  shows "m = m_config_map this"
  using assms by (simp add: phases_def stop_def case_prod_beta Let_def split: if_splits)



lemma Optimize_forwards_config:
  assumes "Call_EncapsulateClusters i m \<in> set (events (Optimize c this item sc))"
  shows "m = m_config_map this"
proof (cases "reaches_marking c item")
  case True
  then have "Call_EncapsulateClusters i m \<in>
      set (events (phases c this (sint sc) (sc + 1) [Call_AddIdentityN (identity_targets c item)]
        (unmarked_graph c item)))"
    using assms by (simp add: Optimize_reaches_marking)
  then show ?thesis
    by (rule phases_forwards_config) simp
next
  case False
  then have "Call_EncapsulateClusters i m \<notin> set (events (Optimize c this item sc))"
    by (simp add: Optimize_def reaches_marking_def passes_entry_def soft_skip_def
        converted_graph_def identity_targets_def stop_def case_prod_beta Let_def)
      blast
  then show ?thesis
    using assms by simp
qed

subsection \<open>FreshIndex\<close>




subsection \<open>Init\<close>

lemma Init_loop_other:
  "key \<notin> (\<lambda>k. ''_ovtf_'' @ k) ` fst ` set params \<Longrightarrow> Init_loop m params key = m key"
  by (induction params arbitrary: m) auto

lemma Init_loop_stored:
  "distinct (map fst params) \<Longrightarrow> (k, v) \<in> set params \<Longrightarrow>
     Init_loop m params (''_ovtf_'' @ k) = Some (s v)"
proof (induction params arbitrary: m)
  case Nil
  then show ?case by simp
next
  case (Cons i params)
  show ?case
  proof (cases "i = (k, v)")
    case True
    then have "''_ovtf_'' @ k \<notin> (\<lambda>k. ''_ovtf_'' @ k) ` fst ` set params"
      using Cons.prems(1) by (auto simp: image_iff)
    then show ?thesis
      using True by (simp add: Init_loop_other)
  next
    case False
    then show ?thesis
      using Cons by auto
  qed
qed

lemma Optimize_calls_encapsulator:
  assumes "reaches_encapsulation c item"
  shows "Call_EncapsulateClusters (fst (FreshIndex sc)) (m_config_map this)
           \<in> set (events (Optimize c this item sc)) \<and>
         outcome (Optimize c this item sc) =
           Returned (fst (EncapsulateClusters c (declustered_graph c item) (fst (FreshIndex sc))
                            (m_config_map this)))"
proof -
  have "reaches_marking c item"
    using assms by (simp add: reaches_encapsulation_def)
  then have o: "Optimize c this item sc =
      phases c this (sint sc) (sc + 1) [Call_AddIdentityN (identity_targets c item)]
        (unmarked_graph c item)"
    by (rule Optimize_reaches_marking)
  show ?thesis
  proof (cases "fst (encapsulation c this item (sint sc)) = OK")
    case True
    then show ?thesis
      using assms
      by (simp add: o reaches_encapsulation_def phases_complete FreshIndex_def)
        (simp add: encapsulation_def)
  next
    case False
    then show ?thesis
      using assms
      by (simp add: o reaches_encapsulation_def phases_encapsulate_fails stop_def FreshIndex_def)
        (simp add: encapsulation_def)
  qed
qed

text \<open>
  C9. \<open>Init\<close> returns \<open>OK\<close>; every parameter \<open>(k, v)\<close> of the configuration (a protobuf
  map, so its keys are distinct) is stored under the key \<open>"_ovtf_" + k\<close> with the string
  value \<open>v.s()\<close>; every other key of the configuration map is left as it was. The map is
  forwarded to the Encapsulator: an invocation of \<open>Optimize\<close> that reaches the
  encapsulation phase calls \<open>EncapsulateClusters\<close> with this map, the status it returns is
  the status that call gives for this map, and no call of \<open>EncapsulateClusters\<close> receives
  another map.
\<close>

theorem Init_stores_prefixed_parameters:
  assumes "distinct (map fst (parameter_map config))"
  shows "fst (Init this config) = OK \<and>
         (\<forall>(k, v) \<in> set (parameter_map config).
            m_config_map (snd (Init this config)) (''_ovtf_'' @ k) = Some (s v)) \<and>
         (\<forall>key. key \<notin> (\<lambda>k. ''_ovtf_'' @ k) ` fst ` set (parameter_map config) \<longrightarrow>
            m_config_map (snd (Init this config)) key = m_config_map this key) \<and>
         (\<forall>i m. Call_EncapsulateClusters i m \<in> set (events (Optimize c (snd (Init this config)) item sc)) \<longrightarrow>
            m = m_config_map (snd (Init this config))) \<and>
         (reaches_encapsulation c item \<longrightarrow>
            Call_EncapsulateClusters (fst (FreshIndex sc)) (m_config_map (snd (Init this config)))
              \<in> set (events (Optimize c (snd (Init this config)) item sc)) \<and>
            outcome (Optimize c (snd (Init this config)) item sc) =
              Returned (fst (EncapsulateClusters c (declustered_graph c item) (fst (FreshIndex sc))
                               (m_config_map (snd (Init this config))))))"
proof (intro conjI)
  show "fst (Init this config) = OK"
    by (simp add: Init_def)
next
  have m: "m_config_map (snd (Init this config)) =
      Init_loop (m_config_map this) (parameter_map config)"
    by (simp add: Init_def)
  show "\<forall>(k, v) \<in> set (parameter_map config).
      m_config_map (snd (Init this config)) (''_ovtf_'' @ k) = Some (s v)"
    unfolding m using Init_loop_stored [OF assms] by blast
  show "\<forall>key. key \<notin> (\<lambda>k. ''_ovtf_'' @ k) ` fst ` set (parameter_map config) \<longrightarrow>
      m_config_map (snd (Init this config)) key = m_config_map this key"
    unfolding m using Init_loop_other by blast
next
  show "\<forall>i m. Call_EncapsulateClusters i m \<in> set (events (Optimize c (snd (Init this config)) item sc)) \<longrightarrow>
      m = m_config_map (snd (Init this config))"
    using Optimize_forwards_config by blast
next
  show "reaches_encapsulation c item \<longrightarrow>
      Call_EncapsulateClusters (fst (FreshIndex sc)) (m_config_map (snd (Init this config)))
        \<in> set (events (Optimize c (snd (Init this config)) item sc)) \<and>
      outcome (Optimize c (snd (Init this config)) item sc) =
        Returned (fst (EncapsulateClusters c (declustered_graph c item) (fst (FreshIndex sc))
                         (m_config_map (snd (Init this config)))))"
    using Optimize_calls_encapsulator by blast
qed

theorem Init_stores_prefixed_parameters_witness:
  "distinct (map fst [(''device'', AttrS ''CPU''), (''batch'', AttrI 4)]) \<and>
   reaches_encapsulation demo_encapsulating demo_item \<and>
   m_config_map (snd (Init demo_optimizer
       \<lparr>optimizer_name = ''ovtf-optimizer'',
        parameter_map = [(''device'', AttrS ''CPU''), (''batch'', AttrI 4)]\<rparr>)) ''_ovtf_device''
     = Some ''CPU'' \<and>
   m_config_map (snd (Init demo_optimizer
       \<lparr>optimizer_name = ''ovtf-optimizer'',
        parameter_map = [(''device'', AttrS ''CPU''), (''batch'', AttrI 4)]\<rparr>)) ''_ovtf_batch''
     = Some [] \<and>
   Call_EncapsulateClusters 0 (m_config_map (snd (Init demo_optimizer
       \<lparr>optimizer_name = ''ovtf-optimizer'',
        parameter_map = [(''device'', AttrS ''CPU''), (''batch'', AttrI 4)]\<rparr>)))
     \<in> set (events (Optimize demo_encapsulating (snd (Init demo_optimizer
       \<lparr>optimizer_name = ''ovtf-optimizer'',
        parameter_map = [(''device'', AttrS ''CPU''), (''batch'', AttrI 4)]\<rparr>)) demo_item 0)) \<and>
   outcome (Optimize demo_encapsulating (snd (Init demo_optimizer
       \<lparr>optimizer_name = ''ovtf-optimizer'',
        parameter_map = [(''device'', AttrS ''CPU''), (''batch'', AttrI 4)]\<rparr>)) demo_item 0)
     = Returned OK"
proof -
  let ?config = "\<lparr>optimizer_name = ''ovtf-optimizer'',
        parameter_map = [(''device'', AttrS ''CPU''), (''batch'', AttrI 4)]\<rparr>"
  have h: "distinct (map fst (parameter_map ?config))"
    by simp
  have r: "reaches_encapsulation demo_encapsulating demo_item"
    by (simp add: reaches_encapsulation_def reaches_marking_def passes_entry_def soft_skip_def
        ovtf_not_enabled_def env_disabled_def converted_graph_def identity_targets_def
        demo_encapsulating_def demo_collaborators_def demo_item_def demo_nodes_def)
  have e: "fst (EncapsulateClusters demo_encapsulating g i m) = OK" for g i m
    by (simp add: demo_encapsulating_def demo_collaborators_def)
  show ?thesis
    using r Init_stores_prefixed_parameters [OF h, of demo_optimizer demo_encapsulating demo_item 0]
    by (simp add: e FreshIndex_def)
qed

subsection \<open>The iterator\<close>

lemma ctor_loop_fills:
  "length ms = node_size g \<Longrightarrow> i \<le> length ms \<Longrightarrow>
     ctor_loop g i ms = take i ms @ map Some (drop i (node g))"
proof (induction g i ms rule: ctor_loop.induct)
  case (1 g i ms)
  show ?case
  proof (cases "i < length ms")
    case True
    then have "ctor_loop g i ms = ctor_loop g (Suc i) (ms[i := node_ptr g i])"
      by (subst ctor_loop.simps) simp
    also have "\<dots> = take (Suc i) (ms[i := node_ptr g i]) @ map Some (drop (Suc i) (node g))"
      using "1.IH" [OF True] "1.prems" True by simp
    also have "take (Suc i) (ms[i := node_ptr g i]) = take i ms @ [Some (node g ! i)]"
      using True "1.prems" by (simp add: take_Suc_conv_app_nth node_ptr_def)
    finally show ?thesis
      using True "1.prems" by (simp add: node_size_def Cons_nth_drop_Suc [symmetric])
  next
    case False
    then show ?thesis
      using "1.prems" by (subst ctor_loop.simps) (simp add: node_size_def)
  qed
qed

lemma m_nodes_new: "m_nodes (new_OVTFGraphIterator g) = map Some (node g)"
  by (simp add: new_OVTFGraphIterator_def ctor_loop_fills node_size_def)

lemma reset_anywhere:
  "reset ((it_next ^^ j) (new_OVTFGraphIterator g)) = new_OVTFGraphIterator g"
proof -
  have "m_nodes ((it_next ^^ j) it) = m_nodes it \<and> m_graph_def ((it_next ^^ j) it) = m_graph_def it" for it
    by (induction j) (simp_all add: it_next_def)
  then show ?thesis
    by (simp add: reset_def new_OVTFGraphIterator_def)
qed

lemma it_next_funpow:
  "(it_next ^^ k) it = it\<lparr>node_index := node_index it + of_nat k\<rparr>"
  by (induction k) (simp_all add: it_next_def add.assoc)




lemma unat_of_nat_64: "n < 2 ^ 64 \<Longrightarrow> unat (of_nat n :: 64 word) = n"
  by (simp add: unat_of_nat)

lemma is_end_after:
  assumes "length (node g) < 2 ^ 64" and "k < 2 ^ 64"
  shows "is_end ((it_next ^^ k) (reset (new_OVTFGraphIterator g))) \<longleftrightarrow> length (node g) \<le> k"
proof -
  have "is_end ((it_next ^^ k) (reset (new_OVTFGraphIterator g))) \<longleftrightarrow>
      (of_nat (length (node g)) :: 64 word) \<le> of_nat k"
    by (simp add: it_next_funpow is_end_def it_size_def reset_def m_nodes_new)
  also have "\<dots> \<longleftrightarrow> length (node g) \<le> k"
    using assms by (simp add: word_le_nat_alt unat_of_nat_64)
  finally show ?thesis .
qed

lemma get_decoder_after:
  assumes "k < length (node g)" and "length (node g) < 2 ^ 64"
  shows "get_decoder ((it_next ^^ k) (reset (new_OVTFGraphIterator g))) =
           Some (OVTFDecoder (Some (node g ! k)))"
proof -
  have "k < 2 ^ 64"
    using assms by simp
  then have "unat (of_nat k :: 64 word) = k"
    by (rule unat_of_nat_64)
  then show ?thesis
    using assms(1)
    by (simp add: it_next_funpow get_decoder_def reset_def m_nodes_new)
qed

lemma traverse_from:
  assumes "m_nodes it = map Some ns" and "length ns < 2 ^ 64"
    and "unat (node_index it) = i" and "n = length ns - i"
  shows "traverse it = map (\<lambda>x. Some (OVTFDecoder (Some x))) (drop i ns)"
  using assms
proof (induction n arbitrary: it i)
  case 0
  then have "is_end it"
    by (simp add: is_end_def it_size_def word_le_nat_alt unat_of_nat_64)
  then show ?case
    using 0 by (subst traverse.simps) simp
next
  case (Suc n)
  then have lt: "i < length ns"
    by simp
  then have ne: "\<not> is_end it"
    using Suc.prems by (simp add: is_end_def it_size_def word_le_nat_alt unat_of_nat_64)
  have "node_index it \<noteq> - 1"
  proof
    assume "node_index it = - 1"
    then have "unat (node_index it) = 2 ^ 64 - 1"
      by (simp add: unsigned_minus_1_eq_mask mask_eq_exp_minus_1)
    then show False
      using Suc.prems lt by simp
  qed
  then have "1 + node_index it \<noteq> 0"
    by (metis add_eq_0_iff)
  then have step: "unat (node_index (it_next it)) = Suc i"
    using Suc.prems by (simp add: it_next_def unatSuc add.commute)
  have "traverse (it_next it) = map (\<lambda>x. Some (OVTFDecoder (Some x))) (drop (Suc i) ns)"
    using Suc.prems step by (intro Suc.IH) (simp_all add: it_next_def)
  moreover have "get_decoder it = Some (OVTFDecoder (Some (ns ! i)))"
    using Suc.prems lt by (simp add: get_decoder_def)
  moreover have "drop i ns = ns ! i # drop (Suc i) ns"
    using lt by (simp add: Cons_nth_drop_Suc)
  ultimately show ?case
    using ne by (subst traverse.simps) simp
qed

text \<open>
  C10. For an iterator built over a \<open>GraphDef\<close> \<open>g\<close> (whose \<open>node_size()\<close> is an \<open>int\<close>, so
  it has fewer than \<open>2^31\<close> nodes): \<open>size()\<close> is the number of nodes of \<open>g\<close>; after a
  \<open>reset()\<close> at any position, \<open>k\<close> calls of \<open>next()\<close> (\<open>k\<close> within the range of \<open>size_t\<close>)
  make \<open>is_end()\<close> true exactly when \<open>k\<close> is at least the number of nodes; before that,
  \<open>get_decoder()\<close> gives a decoder of the \<open>k\<close>-th node of \<open>g\<close>; and the traversal from
  \<open>reset()\<close> to \<open>is_end()\<close> yields the decoders of the nodes of \<open>g\<close>, each once, in the
  order of \<open>g\<close>.
\<close>

theorem iterator_visits_each_node_once:
  assumes "length (node g) < 2 ^ 31"
  shows "unat (it_size (new_OVTFGraphIterator g)) = length (node g) \<and>
         (\<forall>j k. k < 2 ^ 64 \<longrightarrow>
            (is_end ((it_next ^^ k) (reset ((it_next ^^ j) (new_OVTFGraphIterator g))))
               \<longleftrightarrow> length (node g) \<le> k)) \<and>
         (\<forall>j k. k < length (node g) \<longrightarrow>
            get_decoder ((it_next ^^ k) (reset ((it_next ^^ j) (new_OVTFGraphIterator g)))) =
              Some (OVTFDecoder (Some (node g ! k)))) \<and>
         (\<forall>j. traverse (reset ((it_next ^^ j) (new_OVTFGraphIterator g))) =
            map (\<lambda>n. Some (OVTFDecoder (Some n))) (node g))"
proof -
  have l64: "length (node g) < 2 ^ 64"
    using assms by (rule less_trans) simp
  have "reset (new_OVTFGraphIterator g) = new_OVTFGraphIterator g"
    by (simp add: reset_def new_OVTFGraphIterator_def)
  then have r: "reset ((it_next ^^ j) (new_OVTFGraphIterator g)) = reset (new_OVTFGraphIterator g)" for j
    by (simp only: reset_anywhere)
  have "unat (it_size (new_OVTFGraphIterator g)) = length (node g)"
    using l64 by (simp add: it_size_def m_nodes_new unat_of_nat_64)
  moreover have "traverse (reset (new_OVTFGraphIterator g)) =
      map (\<lambda>n. Some (OVTFDecoder (Some n))) (drop 0 (node g))"
    by (rule traverse_from [OF _ l64]) (simp_all add: reset_def m_nodes_new)
  ultimately show ?thesis
    using l64 by (simp add: r is_end_after get_decoder_after)
qed

theorem iterator_visits_each_node_once_witness:
  "length (node (graph demo_item)) < 2 ^ 31 \<and>
   unat (it_size (new_OVTFGraphIterator (graph demo_item))) = 2 \<and>
   traverse (reset (new_OVTFGraphIterator (graph demo_item))) =
     [Some (OVTFDecoder (Some (demo_nodes ! 0))), Some (OVTFDecoder (Some (demo_nodes ! 1)))]"
proof -
  have h: "length (node (graph demo_item)) < 2 ^ 31"
    by (simp add: demo_item_def demo_nodes_def)
  have "\<forall>j. traverse (reset ((it_next ^^ j) (new_OVTFGraphIterator (graph demo_item)))) =
      map (\<lambda>n. Some (OVTFDecoder (Some n))) (node (graph demo_item))"
    using iterator_visits_each_node_once [OF h] by blast
  then have "traverse (reset ((it_next ^^ 0) (new_OVTFGraphIterator (graph demo_item)))) =
      map (\<lambda>n. Some (OVTFDecoder (Some n))) (node (graph demo_item))"
    by blast
  moreover have "unat (it_size (new_OVTFGraphIterator (graph demo_item))) = length (node (graph demo_item))"
    using iterator_visits_each_node_once [OF h] by blast
  ultimately show ?thesis
    using h by (simp add: demo_item_def demo_nodes_def)
qed

subsection \<open>Failures and the order of the phases\<close>

lemma events_reach_assignment:
  assumes "reaches_marking c item" and "fst (GetBackendName c) = OK"
  shows "take 6 (events (Optimize c this item sc)) =
           [Call_AddIdentityN (identity_targets c item),
            Call_DumpTFGraph (unmarked_graph c item) (fst (FreshIndex sc)) ''unmarked'',
            Call_GetBackendName, Call_MarkSupportedNodes,
            Call_DumpTFGraph (marked_graph c item) (fst (FreshIndex sc)) ''marked'',
            Call_AssignClusters]"
proof -
  have o: "Optimize c this item sc =
      phases c this (sint sc) (sc + 1) [Call_AddIdentityN (identity_targets c item)]
        (unmarked_graph c item)"
    using assms(1) by (rule Optimize_reaches_marking)
  show ?thesis
  proof (cases "ok (fst (AssignClusters c (marked_graph c item)))")
    case False
    then show ?thesis
      using assms(2) by (simp add: o phases_assign_fails stop_def FreshIndex_def)
  next
    case a: True
    show ?thesis
    proof (cases "ok (fst (DeassignClusters c (clustered_graph c item)))")
      case False
      then show ?thesis
        using assms(2) a by (simp add: o phases_deassign_fails stop_def FreshIndex_def)
    next
      case d: True
      show ?thesis
      proof (cases "fst (encapsulation c this item (sint sc)) = OK")
        case False
        then show ?thesis
          using assms(2) a d by (simp add: o phases_encapsulate_fails stop_def FreshIndex_def)
      next
        case True
        then show ?thesis
          using assms(2) a d by (simp add: o phases_complete FreshIndex_def)
      qed
    qed
  qed
qed

lemma Optimize_ignores_feed_keep_init:
  assumes "estimator_Initialize c (item\<lparr>feed := fd, keep_ops := ks, init_ops := ios\<rparr>) =
      estimator_Initialize c item"
  shows "Optimize c this (item\<lparr>feed := fd, keep_ops := ks, init_ops := ios\<rparr>) sc =
      Optimize c this item sc"
  using assms by (simp add: Optimize_def nodes_to_add_identity_to_def Let_def case_prod_beta)

text \<open>
  C4. When control reaches \<open>EncapsulateClusters\<close> and that call returns a status other
  than \<open>OK\<close>, \<open>Optimize\<close> returns this very status, \<open>*output\<close> is never written, and the
  graph is not dumped at the stage \<open>encapsulated\<close>.
\<close>

theorem encapsulation_failure_returns_no_graph:
  assumes "reaches_encapsulation c item"
    and "fst (encapsulation c this item (fst (FreshIndex sc))) \<noteq> OK"
  shows "outcome (Optimize c this item sc) =
           Returned (fst (encapsulation c this item (fst (FreshIndex sc)))) \<and>
         output_def (Optimize c this item sc) = None \<and>
         (\<forall>g i. Call_DumpTFGraph g i ''encapsulated'' \<notin> set (events (Optimize c this item sc)))"
proof -
  have "reaches_marking c item"
    using assms(1) by (simp add: reaches_encapsulation_def)
  then have "Optimize c this item sc =
      phases c this (sint sc) (sc + 1) [Call_AddIdentityN (identity_targets c item)]
        (unmarked_graph c item)"
    by (rule Optimize_reaches_marking)
  then show ?thesis
    using assms
    by (simp add: reaches_encapsulation_def phases_encapsulate_fails stop_def FreshIndex_def)
qed

theorem encapsulation_failure_returns_no_graph_witness:
  "reaches_encapsulation demo_encapsulation_fails demo_item \<and>
   outcome (Optimize demo_encapsulation_fails demo_optimizer demo_item 0) =
     Returned (Error INTERNAL ''Dangling edge in cluster signature'') \<and>
   output_def (Optimize demo_encapsulation_fails demo_optimizer demo_item 0) = None"
proof -
  have r: "reaches_encapsulation demo_encapsulation_fails demo_item"
    by (simp add: reaches_encapsulation_def reaches_marking_def passes_entry_def soft_skip_def
        ovtf_not_enabled_def env_disabled_def converted_graph_def identity_targets_def
        demo_encapsulation_fails_def demo_collaborators_def demo_item_def demo_nodes_def)
  have e: "fst (encapsulation demo_encapsulation_fails demo_optimizer demo_item (fst (FreshIndex 0)))
      = Error INTERNAL ''Dangling edge in cluster signature''"
    by (simp add: encapsulation_def demo_encapsulation_fails_def demo_collaborators_def)
  then have n: "fst (encapsulation demo_encapsulation_fails demo_optimizer demo_item (fst (FreshIndex 0)))
      \<noteq> OK"
    by simp
  show ?thesis
    using r encapsulation_failure_returns_no_graph [OF r n] by (simp add: e)
qed

text \<open>
  C5, as amended. When control reaches the backend-name query and it returns a status
  other than \<open>OK\<close>, the invocation ends there: it does not return that status but throws
  a \<open>runtime_error\<close> that carries only the error message of the status, unchanged;
  \<open>*output\<close> is never written, the query has been made once, and neither the capability
  checker nor any of the three later phases has been called.
\<close>

theorem unresolved_backend_aborts:
  assumes "reaches_marking c item" and "fst (GetBackendName c) \<noteq> OK"
  shows "outcome (Optimize c this item sc) = Thrown (error_message (fst (GetBackendName c))) \<and>
         output_def (Optimize c this item sc) = None \<and>
         events (Optimize c this item sc) =
           [Call_AddIdentityN (identity_targets c item),
            Call_DumpTFGraph (unmarked_graph c item) (fst (FreshIndex sc)) ''unmarked'',
            Call_GetBackendName]"
  using assms
  by (simp add: Optimize_reaches_marking phases_backend_fails stop_def FreshIndex_def)

theorem unresolved_backend_aborts_witness:
  "reaches_marking demo_backend_unset demo_item \<and>
   fst (GetBackendName demo_backend_unset) \<noteq> OK \<and>
   outcome (Optimize demo_backend_unset demo_optimizer demo_item 0) = Thrown ''Backend is not set'' \<and>
   output_def (Optimize demo_backend_unset demo_optimizer demo_item 0) = None"
proof -
  have r: "reaches_marking demo_backend_unset demo_item"
    by (simp add: reaches_marking_def passes_entry_def soft_skip_def
        ovtf_not_enabled_def env_disabled_def converted_graph_def identity_targets_def
        demo_backend_unset_def demo_collaborators_def demo_item_def demo_nodes_def)
  have n: "fst (GetBackendName demo_backend_unset) \<noteq> OK"
    by (simp add: demo_backend_unset_def)
  show ?thesis
    using r n unresolved_backend_aborts [OF r n, of demo_optimizer 0]
    by (simp add: demo_backend_unset_def)
qed

text \<open>
  C5 as stated fails: the error is not surfaced unmodified. The status of the backend
  manager is not returned, and its code is lost: two statuses with different codes and
  the same message end the invocation in the same way, with an exception that holds the
  message alone.
\<close>

theorem backend_status_not_surfaced_counterexample:
  "fst (GetBackendName demo_backend_unset) = Error INTERNAL ''Backend is not set'' \<and>
   fst (GetBackendName demo_backend_not_found) = Error NOT_FOUND ''Backend is not set'' \<and>
   outcome (Optimize demo_backend_unset demo_optimizer demo_item 0) = Thrown ''Backend is not set'' \<and>
   outcome (Optimize demo_backend_unset demo_optimizer demo_item 0) \<noteq>
     Returned (Error INTERNAL ''Backend is not set'') \<and>
   Optimize demo_backend_not_found demo_optimizer demo_item 0 =
     Optimize demo_backend_unset demo_optimizer demo_item 0"
  by (simp add: Optimize_def phases_def stop_def ovtf_not_enabled_def env_disabled_def
      nodes_to_add_identity_to_def FreshIndex_def demo_backend_unset_def
      demo_backend_not_found_def demo_collaborators_def demo_item_def demo_nodes_def)

text \<open>
  C6, as amended. When the pass is neither disabled nor skipped and every step succeeds
  (graph conversion, estimator initialisation, \<open>AddIdentityN\<close>, the backend-name query,
  cluster assignment, deassignment and encapsulation), \<open>Optimize\<close> runs exactly the four
  phases, marking, assignment, deassignment, encapsulation, in this order; each phase
  receives the whole graph the phase before it left; and the graph is dumped at the five
  stages \<open>unmarked\<close>, \<open>marked\<close>, \<open>clustered\<close>, \<open>declustered\<close>, \<open>encapsulated\<close>,
  each time under the index \<open>FreshIndex\<close> returned to this invocation.
\<close>

theorem phases_run_in_order:
  assumes "reaches_encapsulation c item"
    and "fst (encapsulation c this item (fst (FreshIndex sc))) = OK"
  shows "events (Optimize c this item sc) =
           [Call_AddIdentityN (identity_targets c item),
            Call_DumpTFGraph (unmarked_graph c item) (fst (FreshIndex sc)) ''unmarked'',
            Call_GetBackendName,
            Call_MarkSupportedNodes,
            Call_DumpTFGraph (marked_graph c item) (fst (FreshIndex sc)) ''marked'',
            Call_AssignClusters,
            Call_DumpTFGraph (clustered_graph c item) (fst (FreshIndex sc)) ''clustered'',
            Call_DeassignClusters,
            Call_DumpTFGraph (declustered_graph c item) (fst (FreshIndex sc)) ''declustered'',
            Call_EncapsulateClusters (fst (FreshIndex sc)) (m_config_map this),
            Call_DumpTFGraph (snd (encapsulation c this item (fst (FreshIndex sc))))
              (fst (FreshIndex sc)) ''encapsulated''] \<and>
         outcome (Optimize c this item sc) = Returned OK \<and>
         output_def (Optimize c this item sc) =
           Some (ToGraphDef c (snd (encapsulation c this item (fst (FreshIndex sc)))))"
proof -
  have "reaches_marking c item"
    using assms(1) by (simp add: reaches_encapsulation_def)
  then have "Optimize c this item sc =
      phases c this (sint sc) (sc + 1) [Call_AddIdentityN (identity_targets c item)]
        (unmarked_graph c item)"
    by (rule Optimize_reaches_marking)
  then show ?thesis
    using assms
    by (simp add: reaches_encapsulation_def phases_complete FreshIndex_def)
qed

theorem phases_run_in_order_witness:
  "reaches_encapsulation demo_collaborators demo_item \<and>
   fst (encapsulation demo_collaborators demo_optimizer demo_item (fst (FreshIndex 7))) = OK \<and>
   map (\<lambda>e. case e of Call_DumpTFGraph g i stage \<Rightarrow> (i, stage) | _ \<Rightarrow> (0, []))
     (events (Optimize demo_collaborators demo_optimizer demo_item 7)) =
     [(0, []), (7, ''unmarked''), (0, []), (0, []), (7, ''marked''), (0, []),
      (7, ''clustered''), (0, []), (7, ''declustered''), (0, []), (7, ''encapsulated'')] \<and>
   outcome (Optimize demo_collaborators demo_optimizer demo_item 7) = Returned OK"
proof -
  have r: "reaches_encapsulation demo_collaborators demo_item"
    by (simp add: reaches_encapsulation_def reaches_marking_def passes_entry_def soft_skip_def
        ovtf_not_enabled_def env_disabled_def converted_graph_def identity_targets_def
        demo_collaborators_def demo_item_def demo_nodes_def)
  have e: "fst (encapsulation demo_collaborators demo_optimizer demo_item (fst (FreshIndex 7))) = OK"
    by (simp add: encapsulation_def demo_collaborators_def)
  show ?thesis
    using r e phases_run_in_order [OF r e] by (simp add: FreshIndex_def)
qed

text \<open>
  C6 as stated fails: with no backend set, the pass is neither disabled nor skipped, and
  the invocation ends at the backend-name query with none of the four phases run.
\<close>

theorem phases_not_run_counterexample:
  "passes_entry demo_backend_unset demo_item \<and>
   \<not> soft_skip demo_backend_unset demo_item \<and>
   events (Optimize demo_backend_unset demo_optimizer demo_item 0) =
     [Call_AddIdentityN {},
      Call_DumpTFGraph \<lparr>nodes = demo_nodes\<rparr> 0 ''unmarked'',
      Call_GetBackendName] \<and>
   outcome (Optimize demo_backend_unset demo_optimizer demo_item 0) = Thrown ''Backend is not set''"
  by (simp add: Optimize_def phases_def stop_def passes_entry_def soft_skip_def
      ovtf_not_enabled_def env_disabled_def converted_graph_def nodes_to_add_identity_to_def
      FreshIndex_def demo_backend_unset_def demo_collaborators_def demo_item_def demo_nodes_def)

lemma first_run_output:
  assumes "reaches_encapsulation c item"
    and "fst (encapsulation c this item (fst (FreshIndex sc))) = OK"
  shows "Optimize c this item sc =
           \<lparr>outcome = Returned OK,
            output_def = Some (ToGraphDef c (snd (encapsulation c this item (fst (FreshIndex sc))))),
            events = events (Optimize c this item sc), serial = sc + 1\<rparr>"
proof -
  have "reaches_marking c item"
    using assms(1) by (simp add: reaches_encapsulation_def)
  then have "Optimize c this item sc =
      phases c this (sint sc) (sc + 1) [Call_AddIdentityN (identity_targets c item)]
        (unmarked_graph c item)"
    by (rule Optimize_reaches_marking)
  then show ?thesis
    using assms by (simp add: reaches_encapsulation_def phases_complete FreshIndex_def)
qed

lemma second_run_skips:
  assumes "sets_processed_marker c" and "round_trips c" and "estimator_initialises c"
    and "fst (EncapsulateClusters c g idx config) = OK"
  shows "Optimize c this (item\<lparr>graph := ToGraphDef c (snd (EncapsulateClusters c g idx config))\<rparr>) sc' =
           \<lparr>outcome = Returned OK,
            output_def = Some (ToGraphDef c (snd (EncapsulateClusters c g idx config))),
            events = [Call_EvictAllClusters, Call_EvictMRUClusters], serial = sc' + 1\<rparr>"
proof -
  let ?g = "snd (EncapsulateClusters c g idx config)"
  let ?item = "item\<lparr>graph := ToGraphDef c ?g\<rparr>"
  have conv: "ConvertGraphDefToGraph c (ToGraphDef c ?g) = (OK, ?g)"
    using assms(2) by (simp add: round_trips_def)
  have entry: "passes_entry c ?item"
    using assms(3) conv by (simp add: passes_entry_def estimator_initialises_def)
  have g: "converted_graph c ?item = ?g"
    using conv by (simp add: converted_graph_def)
  have "IsAlreadyProcessed c ?g"
    using assms(1,4) by (simp add: sets_processed_marker_def)
  then have "soft_skip c ?item"
    by (simp add: soft_skip_def g)
  then show ?thesis
    using entry by (simp add: Optimize_soft_skip g)
qed

text \<open>
  C2. When the input graph carries the already-processed marker (it has been converted,
  and the estimator initialised), \<open>Optimize\<close> calls none of the phases: it evicts the
  cluster caches, writes the converted graph, to which nothing has been done, to
  \<open>*output\<close> and returns \<open>OK\<close>. Hence two runs on the same input: when the first run goes
  through the four phases with success, which sets the marker, the second run, on the
  output of the first, returns \<open>OK\<close> and writes that same output again, after the two
  evictions and without any phase. The second part rests on the marker as the spec
  describes it and on TensorFlow's conversions and estimator.
\<close>

theorem already_processed_skips:
  "(passes_entry c item \<and> IsAlreadyProcessed c (converted_graph c item) \<longrightarrow>
      outcome (Optimize c this item sc) = Returned OK \<and>
      output_def (Optimize c this item sc) = Some (ToGraphDef c (converted_graph c item)) \<and>
      events (Optimize c this item sc) = [Call_EvictAllClusters, Call_EvictMRUClusters]) \<and>
   (sets_processed_marker c \<and> round_trips c \<and> estimator_initialises c \<and>
    reaches_encapsulation c item \<and>
    fst (encapsulation c this item (fst (FreshIndex sc))) = OK \<longrightarrow>
      (\<exists>gd. outcome (Optimize c this item sc) = Returned OK \<and>
            output_def (Optimize c this item sc) = Some gd \<and>
            outcome (Optimize c this (item\<lparr>graph := gd\<rparr>) (serial (Optimize c this item sc)))
              = Returned OK \<and>
            output_def (Optimize c this (item\<lparr>graph := gd\<rparr>) (serial (Optimize c this item sc)))
              = Some gd \<and>
            events (Optimize c this (item\<lparr>graph := gd\<rparr>) (serial (Optimize c this item sc)))
              = [Call_EvictAllClusters, Call_EvictMRUClusters]))"
proof -
  have one: "outcome (Optimize c this item sc) = Returned OK \<and>
      output_def (Optimize c this item sc) = Some (ToGraphDef c (converted_graph c item)) \<and>
      events (Optimize c this item sc) = [Call_EvictAllClusters, Call_EvictMRUClusters]"
    if "passes_entry c item \<and> IsAlreadyProcessed c (converted_graph c item)"
    using that by (simp add: Optimize_soft_skip soft_skip_def)
  have two: "\<exists>gd. outcome (Optimize c this item sc) = Returned OK \<and>
        output_def (Optimize c this item sc) = Some gd \<and>
        outcome (Optimize c this (item\<lparr>graph := gd\<rparr>) (serial (Optimize c this item sc)))
          = Returned OK \<and>
        output_def (Optimize c this (item\<lparr>graph := gd\<rparr>) (serial (Optimize c this item sc)))
          = Some gd \<and>
        events (Optimize c this (item\<lparr>graph := gd\<rparr>) (serial (Optimize c this item sc)))
          = [Call_EvictAllClusters, Call_EvictMRUClusters]"
    if a: "sets_processed_marker c \<and> round_trips c \<and> estimator_initialises c \<and>
      reaches_encapsulation c item \<and>
      fst (encapsulation c this item (fst (FreshIndex sc))) = OK"
  proof -
    let ?e = "encapsulation c this item (fst (FreshIndex sc))"
    let ?gd = "ToGraphDef c (snd ?e)"
    have first: "Optimize c this item sc =
        \<lparr>outcome = Returned OK, output_def = Some ?gd,
         events = events (Optimize c this item sc), serial = sc + 1\<rparr>"
      using a first_run_output by blast
    have second: "Optimize c this (item\<lparr>graph := ?gd\<rparr>) (sc + 1) =
        \<lparr>outcome = Returned OK, output_def = Some ?gd,
         events = [Call_EvictAllClusters, Call_EvictMRUClusters], serial = sc + 1 + 1\<rparr>"
      unfolding encapsulation_def
      using a by (intro second_run_skips) (simp_all add: encapsulation_def)
    have o: "outcome (Optimize c this item sc) = Returned OK"
      by (subst first) simp
    have w: "output_def (Optimize c this item sc) = Some ?gd"
      by (subst first) simp
    have n: "serial (Optimize c this item sc) = sc + 1"
      by (subst first) simp
    show ?thesis
      by (rule exI [of _ ?gd]) (simp add: o w n second)
  qed
  show ?thesis
    using one two by blast
qed

theorem already_processed_skips_witness:
  "passes_entry demo_collaborators processed_item \<and>
   IsAlreadyProcessed demo_collaborators (converted_graph demo_collaborators processed_item) \<and>
   outcome (Optimize demo_collaborators demo_optimizer processed_item 0) = Returned OK \<and>
   output_def (Optimize demo_collaborators demo_optimizer processed_item 0) =
     Some (graph processed_item) \<and>
   sets_processed_marker demo_encapsulating \<and> round_trips demo_encapsulating \<and>
   estimator_initialises demo_encapsulating \<and>
   reaches_encapsulation demo_encapsulating demo_item \<and>
   fst (encapsulation demo_encapsulating demo_optimizer demo_item (fst (FreshIndex 0))) = OK \<and>
   (\<exists>gd. output_def (Optimize demo_encapsulating demo_optimizer demo_item 0) = Some gd \<and>
      output_def (Optimize demo_encapsulating demo_optimizer (demo_item\<lparr>graph := gd\<rparr>)
         (serial (Optimize demo_encapsulating demo_optimizer demo_item 0))) = Some gd \<and>
      events (Optimize demo_encapsulating demo_optimizer (demo_item\<lparr>graph := gd\<rparr>)
         (serial (Optimize demo_encapsulating demo_optimizer demo_item 0)))
        = [Call_EvictAllClusters, Call_EvictMRUClusters])"
proof -
  have p: "passes_entry demo_collaborators processed_item"
    by (simp add: passes_entry_def demo_collaborators_def)
  have a: "IsAlreadyProcessed demo_collaborators (converted_graph demo_collaborators processed_item)"
    by (simp add: converted_graph_def demo_collaborators_def processed_item_def)
  have m: "sets_processed_marker demo_encapsulating"
    by (simp add: sets_processed_marker_def demo_encapsulating_def demo_collaborators_def)
  have t: "round_trips demo_encapsulating"
    by (simp add: round_trips_def demo_encapsulating_def demo_collaborators_def)
  have i: "estimator_initialises demo_encapsulating"
    by (simp add: estimator_initialises_def demo_encapsulating_def demo_collaborators_def)
  have r: "reaches_encapsulation demo_encapsulating demo_item"
    by (simp add: reaches_encapsulation_def reaches_marking_def passes_entry_def soft_skip_def
        ovtf_not_enabled_def env_disabled_def converted_graph_def identity_targets_def
        demo_encapsulating_def demo_collaborators_def demo_item_def demo_nodes_def)
  have e: "fst (encapsulation demo_encapsulating demo_optimizer demo_item (fst (FreshIndex 0))) = OK"
    by (simp add: encapsulation_def demo_encapsulating_def demo_collaborators_def)
  have one: "outcome (Optimize demo_collaborators demo_optimizer processed_item 0) = Returned OK \<and>
      output_def (Optimize demo_collaborators demo_optimizer processed_item 0) =
        Some (ToGraphDef demo_collaborators (converted_graph demo_collaborators processed_item))"
    using p a already_processed_skips [of demo_collaborators processed_item demo_optimizer 0]
    by blast
  have two: "\<exists>gd. output_def (Optimize demo_encapsulating demo_optimizer demo_item 0) = Some gd \<and>
      output_def (Optimize demo_encapsulating demo_optimizer (demo_item\<lparr>graph := gd\<rparr>)
         (serial (Optimize demo_encapsulating demo_optimizer demo_item 0))) = Some gd \<and>
      events (Optimize demo_encapsulating demo_optimizer (demo_item\<lparr>graph := gd\<rparr>)
         (serial (Optimize demo_encapsulating demo_optimizer demo_item 0)))
        = [Call_EvictAllClusters, Call_EvictMRUClusters]"
    using m t i r e already_processed_skips [of demo_encapsulating demo_item demo_optimizer 0]
    by blast
  have g: "ToGraphDef demo_collaborators (converted_graph demo_collaborators processed_item) =
      graph processed_item"
    by (simp add: converted_graph_def demo_collaborators_def)
  show ?thesis
    using p a m t i r e one two by (simp only: g)
qed

text \<open>
  C3. The claim is that, with the API enabled, only the value \<open>1\<close> of
  \<open>OPENVINO_TF_DISABLE\<close> disables the pass. The code compares the first character of the
  value only: every value that begins with \<open>1\<close> disables the pass. With the value \<open>10\<close>,
  the API enabled and a graph that has not been processed, \<open>Optimize\<close> evicts the cluster
  caches and returns the input graph with \<open>OK\<close>.
\<close>

theorem disable_env_reads_first_character:
  "env_disabled (Some (CHR ''1'' # rest)) \<and>
   getenv demo_env_10 ''OPENVINO_TF_DISABLE'' = Some ''10'' \<and>
   api_IsEnabled demo_env_10 \<and>
   \<not> IsAlreadyProcessed demo_env_10 (converted_graph demo_env_10 demo_item) \<and>
   Optimize demo_env_10 demo_optimizer demo_item 0 =
     \<lparr>outcome = Returned OK, output_def = Some (graph demo_item),
      events = [Call_EvictAllClusters, Call_EvictMRUClusters], serial = 1\<rparr>"
  by (simp add: Optimize_def ovtf_not_enabled_def env_disabled_def first_char_def
      converted_graph_def FreshIndex_def demo_env_10_def demo_collaborators_def demo_item_def
      demo_nodes_def)

text \<open>
  C1. The claim is that no node of the protected set is ever merged into a cluster. In the
  code nothing reads \<open>nodes_to_preserve\<close> once it is built: marking goes over the nodes
  the capability checker returned, and the phases after it receive the graph only. In this
  instance the feed \<open>x\<close> is in the protected set, yet the graph handed to
  \<open>AssignClusters\<close> has \<open>x\<close> marked for clustering next to its consumer \<open>y\<close>, and the
  invocation is the same as for the item without the feed, whatever the later phases do.
\<close>

theorem protected_feed_is_marked:
  "''x'' \<in> nodes_to_preserve (api_GetDisabledOps (demo_with_phases a d e))
            (converted_graph (demo_with_phases a d e) demo_item) demo_item \<and>
   marked_graph (demo_with_phases a d e) demo_item =
     \<lparr>nodes =
        [\<lparr>name = ''x'', op = ''Relu'', input = [],
          attr = [''_ovtf_marked_for_clustering'' \<mapsto> AttrB True]\<rparr>,
         \<lparr>name = ''y'', op = ''Relu'', input = [''x''],
          attr = [''_ovtf_marked_for_clustering'' \<mapsto> AttrB True]\<rparr>]\<rparr> \<and>
   take 6 (events (Optimize (demo_with_phases a d e) demo_optimizer demo_item 0)) =
     [Call_AddIdentityN {},
      Call_DumpTFGraph \<lparr>nodes = demo_nodes\<rparr> 0 ''unmarked'',
      Call_GetBackendName, Call_MarkSupportedNodes,
      Call_DumpTFGraph (marked_graph (demo_with_phases a d e) demo_item) 0 ''marked'',
      Call_AssignClusters] \<and>
   Optimize (demo_with_phases a d e) demo_optimizer (demo_item\<lparr>feed := []\<rparr>) 0 =
     Optimize (demo_with_phases a d e) demo_optimizer demo_item 0"
proof -
  let ?c = "demo_with_phases a d e"
  have r: "reaches_marking ?c demo_item"
    by (simp add: reaches_marking_def passes_entry_def soft_skip_def
        ovtf_not_enabled_def env_disabled_def converted_graph_def identity_targets_def
        demo_with_phases_def demo_collaborators_def demo_item_def demo_nodes_def)
  have b: "fst (GetBackendName ?c) = OK"
    by (simp add: demo_with_phases_def demo_collaborators_def)
  have t: "identity_targets ?c demo_item = {}"
    by (simp add: identity_targets_def nodes_to_add_identity_to_def demo_item_def)
  have u: "unmarked_graph ?c demo_item = \<lparr>nodes = demo_nodes\<rparr>"
    by (simp add: unmarked_graph_def converted_graph_def demo_with_phases_def
        demo_collaborators_def demo_item_def)
  have p: "''x'' \<in> nodes_to_preserve (api_GetDisabledOps ?c) (converted_graph ?c demo_item) demo_item"
    by (simp add: nodes_to_preserve_def feeds_keep_init_def demo_item_def)
  have m: "marked_graph ?c demo_item =
     \<lparr>nodes =
        [\<lparr>name = ''x'', op = ''Relu'', input = [],
          attr = [''_ovtf_marked_for_clustering'' \<mapsto> AttrB True]\<rparr>,
         \<lparr>name = ''y'', op = ''Relu'', input = [''x''],
          attr = [''_ovtf_marked_for_clustering'' \<mapsto> AttrB True]\<rparr>]\<rparr>"
  proof -
    have "marked_graph ?c demo_item =
        mark_loop (GetAttributeSetters ?c)
          (MarkSupportedNodes ?c (snd (GetBackendName ?c)) (ov_version ?c) (api_GetDisabledOps ?c)
             \<lparr>nodes = demo_nodes\<rparr>)
          \<lparr>nodes = demo_nodes\<rparr>"
      by (simp only: marked_graph_def u)
    then show ?thesis
      by (simp add: demo_nodes_def mark_node_def demo_with_phases_def demo_collaborators_def)
  qed
  have s: "Optimize ?c demo_optimizer (demo_item\<lparr>feed := []\<rparr>) 0 = Optimize ?c demo_optimizer demo_item 0"
    using Optimize_ignores_feed_keep_init
      [where c = ?c and item = demo_item and fd = "[]" and ks = "keep_ops demo_item"
         and ios = "init_ops demo_item" and this = demo_optimizer and sc = 0]
    by (simp add: demo_with_phases_def demo_collaborators_def)
  show ?thesis
    using events_reach_assignment [OF r b, of demo_optimizer 0] p m s
    by (simp add: t u FreshIndex_def)
qed

end
